theory Spec2Isabelle
  imports Complex_Main "HOL-Library.Multiset"
begin

section \<open>Data model of \<^verbatim>\<open>getscrambled/encode.py\<close>\<close>

text \<open>
  An image is what the module reads of a \<^verbatim>\<open>PIL.Image.Image\<close>: its declared format tag
  (\<^verbatim>\<open>image.format\<close>, a string or \<^verbatim>\<open>None\<close>), its size \<^verbatim>\<open>(width, height)\<close> and its pixel
  content, which stays opaque.
\<close>

record 'p image =
  format :: "string option"
  size_image :: "int \<times> int"
  pixels :: 'p

text \<open>
  Exceptions are values. \<^verbatim>\<open>ValueError\<close> and \<^verbatim>\<open>OverflowError\<close> are what \<^verbatim>\<open>int()\<close> raises on a
  NaN and on an infinity; \<^verbatim>\<open>OtherError\<close> stands for whatever else a collaborator raises
  (a file that cannot be opened, a payload too long for the image, ...).
  \<^verbatim>\<open>ImageFormatError(image)\<close> is the package's own exception and carries the rejected image.
\<close>

datatype builtin_error = ValueError | OverflowError | OtherError string

datatype 'p error = ImageFormatError "'p image" | Builtin builtin_error

text \<open>The image argument is either a path string or an image object.\<close>

datatype 'p image_arg = Path string | Img "'p image"

text \<open>
  The numbers a caller can put into a blocks entry: Python integers (unbounded) and floats.
  A finite float is the rational number it denotes; NaN and the infinities are kept apart
  because \<^verbatim>\<open>int()\<close> raises on them.
\<close>

datatype pynum = IntV int | FloatV rat | NanV | InfV

text \<open>\<^verbatim>\<open>int(x)\<close>: the identity on an integer, truncation towards zero on a finite float.\<close>

definition truncate_rat :: "rat \<Rightarrow> int" where
  "truncate_rat q = (if q < 0 then - \<lfloor>- q\<rfloor> else \<lfloor>q\<rfloor>)"

fun py_int :: "pynum \<Rightarrow> builtin_error + int" where
  "py_int (IntV n) = Inr n"
| "py_int (FloatV q) = Inr (truncate_rat q)"
| "py_int NanV = Inl ValueError"
| "py_int InfV = Inl OverflowError"

text \<open>
  The collaborators of the module, which are not part of it, are parameters:
  the constant \<^verbatim>\<open>C.BLOCK_SIZE\<close> of \<^verbatim>\<open>constants\<close>, \<^verbatim>\<open>PIL.Image.open\<close>,
  \<^verbatim>\<open>create_block_grid\<close> and \<^verbatim>\<open>arrange_blocks\<close> of \<^verbatim>\<open>shared\<close>, and \<^verbatim>\<open>stegano.lsb.hide\<close>.
  Each of the functions may raise.
\<close>

record 'p env =
  BLOCK_SIZE :: int
  image_open :: "string \<Rightarrow> 'p error + 'p image"
  create_block_grid :: "int \<Rightarrow> int \<Rightarrow> int \<Rightarrow> 'p error + (int \<times> int) list"
  arrange_blocks :: "'p image \<Rightarrow> int \<Rightarrow> (int \<times> int) list \<Rightarrow> 'p error + 'p image"
  lsb_hide :: "'p image \<Rightarrow> string \<Rightarrow> 'p error + 'p image"

section \<open>\<^verbatim>\<open>json.dumps(number_list, separators=(',', ':'))\<close>\<close>

text \<open>The decimal numeral of an integer, as \<^verbatim>\<open>json.dumps\<close> writes it.\<close>

definition digit_char :: "nat \<Rightarrow> char" where
  "digit_char d = ''0123456789'' ! d"

function str_nat :: "nat \<Rightarrow> string" where
  "str_nat n = (if n < 10 then [digit_char n] else str_nat (n div 10) @ [digit_char (n mod 10)])"
  by pat_completeness auto
termination
  by (relation "measure id") auto

declare str_nat.simps [simp del]

definition str_int :: "int \<Rightarrow> string" where
  "str_int i = (if i < 0 then CHR ''-'' # str_nat (nat (- i)) else str_nat (nat i))"

text \<open>The items joined by the item separator \<^verbatim>\<open>','\<close>, with nothing else between them.\<close>

fun join_items :: "string list \<Rightarrow> string" where
  "join_items [] = []"
| "join_items [s] = s"
| "join_items (s # t # ts) = s @ '','' @ join_items (t # ts)"

definition json_dumps :: "int list \<Rightarrow> string" where
  "json_dumps ns = ''['' @ join_items (map str_int ns) @ '']''"

section \<open>\<^verbatim>\<open>np.random.shuffle\<close> on a list\<close>

text \<open>
  The process-wide random source is the stream of the numbers it will produce.
  \<^verbatim>\<open>random_interval(state, mx)\<close> consumes from the stream and returns a number of \<open>[0, mx]\<close>.
\<close>

type_synonym bitgen = "nat \<Rightarrow> nat"

definition random_interval :: "bitgen \<Rightarrow> nat \<Rightarrow> nat \<times> bitgen" where
  "random_interval g mx = (g 0 mod Suc mx, \<lambda>k. g (Suc k))"

text \<open>
  The untyped path of \<^verbatim>\<open>shuffle\<close>, which a Python list takes:
  \<^verbatim>\<open>for i in reversed(range(1, n)): j = random_interval(i); x[i], x[j] = x[j], x[i]\<close>.
  \<open>shuffle_from i\<close> runs the iterations \<open>i, i - 1, ..., 1\<close>.
\<close>

fun shuffle_from :: "nat \<Rightarrow> 'a list \<Rightarrow> bitgen \<Rightarrow> 'a list \<times> bitgen" where
  "shuffle_from 0 xs g = (xs, g)"
| "shuffle_from (Suc i) xs g =
     (case random_interval g (Suc i) of
        (j, g') \<Rightarrow> shuffle_from i (xs[Suc i := xs ! j, j := xs ! Suc i]) g')"

definition shuffle :: "'a list \<Rightarrow> bitgen \<Rightarrow> 'a list \<times> bitgen" where
  "shuffle xs g = shuffle_from (length xs - 1) xs g"

section \<open>The module\<close>

text \<open>
  Lines 47-48 and 77-78:
  \<^verbatim>\<open>if isinstance(image, str): image = PIL.Image.open(image)\<close>.
\<close>

definition resolve_image :: "'p env \<Rightarrow> 'p image_arg \<Rightarrow> 'p error + 'p image" where
  "resolve_image env img = (case img of Path p \<Rightarrow> image_open env p | Img im \<Rightarrow> Inr im)"

text \<open>Lines 50 and 80: \<^verbatim>\<open>image.format not in ("PNG", None)\<close>.\<close>

definition format_rejected :: "'p image \<Rightarrow> bool" where
  "format_rejected im = (format im \<notin> set [Some ''PNG'', None])"

subsection \<open>\<^verbatim>\<open>add_data_image\<close>\<close>

text \<open>
  The two list objects the loop of lines 54-57 works on: the caller's \<^verbatim>\<open>blocks\<close>, which it
  iterates, and the local \<^verbatim>\<open>number_list\<close>, which it appends to.
\<close>

record flatten_state =
  blocks_var :: "(pynum \<times> pynum) list"
  number_list :: "int list"

text \<open>
  \<^verbatim>\<open>for x, y in blocks: number_list.append(int(x)); number_list.append(int(y))\<close>.
  The list iterator reads \<^verbatim>\<open>blocks[i]\<close> while \<open>i\<close> is below the current length. An exception
  of \<^verbatim>\<open>int()\<close> leaves the loop with the state reached so far.
\<close>

function flatten_from :: "nat \<Rightarrow> flatten_state \<Rightarrow> builtin_error option \<times> flatten_state" where
  "flatten_from i s =
     (if i < length (blocks_var s) then
        (case blocks_var s ! i of
           (x, y) \<Rightarrow>
             (case py_int x of
                Inl e \<Rightarrow> (Some e, s)
              | Inr a \<Rightarrow>
                  (case py_int y of
                     Inl e \<Rightarrow> (Some e, s\<lparr>number_list := number_list s @ [a]\<rparr>)
                   | Inr b \<Rightarrow>
                       flatten_from (Suc i)
                         (s\<lparr>number_list := (number_list s @ [a]) @ [b]\<rparr>))))
      else (None, s))"
  by pat_completeness auto
termination
  by (relation "measure (\<lambda>(i, s). length (blocks_var s) - i)") auto

declare flatten_from.simps [simp del]

text \<open>
  The result is the value returned or the exception raised, together with the contents of
  the caller's \<^verbatim>\<open>blocks\<close> list when the call ends.
\<close>

definition add_data_image ::
  "'p env \<Rightarrow> 'p image_arg \<Rightarrow> (pynum \<times> pynum) list
     \<Rightarrow> ('p error + 'p image) \<times> (pynum \<times> pynum) list" where
  "add_data_image env img blocks =
     (case resolve_image env img of
        Inl e \<Rightarrow> (Inl e, blocks)
      | Inr im \<Rightarrow>
          if format_rejected im then (Inl (ImageFormatError im), blocks)
          else
            (case flatten_from 0 \<lparr>blocks_var = blocks, number_list = []\<rparr> of
               (Some e, s) \<Rightarrow> (Inl (Builtin e), blocks_var s)
             | (None, s) \<Rightarrow>
                 (let json_data = json_dumps (number_list s)
                  in (lsb_hide env im json_data, blocks_var s))))"

subsection \<open>\<^verbatim>\<open>encode_blocks\<close>\<close>

text \<open>Lines 74-75: \<^verbatim>\<open>if block_size is None: block_size = C.BLOCK_SIZE\<close>.\<close>

definition default_block_size :: "'p env \<Rightarrow> int option \<Rightarrow> int" where
  "default_block_size env block_size =
     (case block_size of None \<Rightarrow> BLOCK_SIZE env | Some s \<Rightarrow> s)"

text \<open>
  The result is the pair \<^verbatim>\<open>(blocks, encoded_image)\<close> or the exception, together with the
  random source after the call. \<^verbatim>\<open>blocks.insert(0, v)\<close> puts \<open>v\<close> in front of the list.
\<close>

definition encode_blocks ::
  "'p env \<Rightarrow> bitgen \<Rightarrow> 'p image_arg \<Rightarrow> int option
     \<Rightarrow> ('p error + (int \<times> int) list \<times> 'p image) \<times> bitgen" where
  "encode_blocks env g img block_size =
     (let block_size = default_block_size env block_size in
      case resolve_image env img of
        Inl e \<Rightarrow> (Inl e, g)
      | Inr im \<Rightarrow>
          if format_rejected im then (Inl (ImageFormatError im), g)
          else
            (case create_block_grid env (fst (size_image im)) (snd (size_image im)) block_size of
               Inl e \<Rightarrow> (Inl e, g)
             | Inr grid \<Rightarrow>
                 (case shuffle grid g of
                    (blocks, g') \<Rightarrow>
                      (case arrange_blocks env im block_size blocks of
                         Inl e \<Rightarrow> (Inl e, g')
                       | Inr encoded_image \<Rightarrow>
                           (let blocks = (block_size, block_size) # blocks;
                                blocks = size_image im # blocks
                            in (Inr (blocks, encoded_image), g'))))))"

subsection \<open>\<^verbatim>\<open>encode\<close>\<close>

text \<open>The integer pairs of \<^verbatim>\<open>encode_blocks\<close> as entries of a blocks argument.\<close>

definition int_pair :: "int \<times> int \<Rightarrow> pynum \<times> pynum" where
  "int_pair c = (IntV (fst c), IntV (snd c))"

definition encode ::
  "'p env \<Rightarrow> bitgen \<Rightarrow> 'p image_arg \<Rightarrow> int option \<Rightarrow> ('p error + 'p image) \<times> bitgen" where
  "encode env g img block_size =
     (case encode_blocks env g img block_size of
        (Inl e, g') \<Rightarrow> (Inl e, g')
      | (Inr (blocks, encoded_img), g') \<Rightarrow>
          (fst (add_data_image env (Img encoded_img) (map int_pair blocks)), g'))"

section \<open>Definitions used to state the properties\<close>

text \<open>
  The loop of lines 54-57 as a function of the list it iterates: the integers it appends,
  or the first exception of \<^verbatim>\<open>int()\<close>. It is compared with \<open>flatten_from\<close> below.
\<close>

fun coerce_all :: "(pynum \<times> pynum) list \<Rightarrow> builtin_error + int list" where
  "coerce_all [] = Inr []"
| "coerce_all ((x, y) # bs) =
     (case py_int x of
        Inl e \<Rightarrow> Inl e
      | Inr a \<Rightarrow>
          (case py_int y of
             Inl e \<Rightarrow> Inl e
           | Inr b \<Rightarrow> (case coerce_all bs of Inl e \<Rightarrow> Inl e | Inr ns \<Rightarrow> Inr (a # b # ns))))"

text \<open>The coordinate pairs flattened in order: \<open>x0, y0, x1, y1, ...\<close>.\<close>

definition flatten_pairs :: "(int \<times> int) list \<Rightarrow> int list" where
  "flatten_pairs cs = concat (map (\<lambda>c. [fst c, snd c]) cs)"

text \<open>
  The wire format as the specification words it: the JSON array
  \<^verbatim>\<open>[W,H,S,S,x0,y0,x1,y1,...,xn,yn]\<close> of the image size \<open>(W, H)\<close>, the block size \<open>S\<close> twice and
  the flattened permutation.
\<close>

definition wire_format :: "int \<times> int \<Rightarrow> int \<Rightarrow> (int \<times> int) list \<Rightarrow> string" where
  "wire_format sz S perm = json_dumps (fst sz # snd sz # S # S # flatten_pairs perm)"

text \<open>
  Truncation as the specification words it: the integer \<open>n\<close> is \<open>q\<close> with its fractional part
  cut off, that is, \<open>n\<close> is no further from zero than \<open>q\<close>, on the same side of zero, and
  less than one away from \<open>q\<close>.
\<close>

definition truncates_to :: "rat \<Rightarrow> int \<Rightarrow> bool" where
  "truncates_to q n =
     (\<bar>of_int n\<bar> \<le> \<bar>q\<bar> \<and> \<bar>q - of_int n\<bar> < 1 \<and> 0 \<le> q * of_int n)"

fun coerced :: "pynum \<Rightarrow> int \<Rightarrow> bool" where
  "coerced (IntV m) n = (n = m)"
| "coerced (FloatV q) n = truncates_to q n"
| "coerced NanV n = False"
| "coerced InfV n = False"

text \<open>The numbers \<^verbatim>\<open>int()\<close> accepts: the integers and the finite floats.\<close>

fun finite_num :: "pynum \<Rightarrow> bool" where
  "finite_num (IntV m) = True"
| "finite_num (FloatV q) = True"
| "finite_num NanV = False"
| "finite_num InfV = False"

text \<open>Whether an outcome is the exception \<^verbatim>\<open>ImageFormatError\<close>.\<close>

definition is_format_error :: "'p error + 'a \<Rightarrow> bool" where
  "is_format_error r = (case r of Inl (ImageFormatError im) \<Rightarrow> True | _ \<Rightarrow> False)"

text \<open>
  Modelled from the spec: the shape check of the decoder, which is not part of this module.
  Deserialisation fails with MalformedPayload when the flattened sequence has odd length or
  fewer than 4 integers.
\<close>

definition malformed_payload :: "int list \<Rightarrow> bool" where
  "malformed_payload ns = (odd (length ns) \<or> length ns < 4)"

text \<open>
  Modelled from the spec: \<^verbatim>\<open>create_block_grid\<close> of \<^verbatim>\<open>shared\<close>, which is not under the sources.
  The canonical row-major sequence of block origins spaced \<open>block_size\<close> apart in each axis and
  covering \<open>[0, width) \<times> [0, height)\<close>, a trailing partial row or column included. The
  specification asks for a positive block size; the model raises on any other.
  It only instantiates the theorems below at concrete inputs.
\<close>

definition grid_axis :: "int \<Rightarrow> int \<Rightarrow> int list" where
  "grid_axis n s = map (\<lambda>k. int k * s) [0..<nat ((n + s - 1) div s)]"

definition spec_create_block_grid ::
  "int \<Rightarrow> int \<Rightarrow> int \<Rightarrow> 'p error + (int \<times> int) list" where
  "spec_create_block_grid width height block_size =
     (if block_size \<le> 0 then Inl (Builtin ValueError)
      else Inr (concat (map (\<lambda>y. map (\<lambda>x. (x, y)) (grid_axis width block_size))
                            (grid_axis height block_size))))"

text \<open>
  A concrete environment for the instances: the configured block size is 32, one file can be
  opened, the arranged image is a new image without a format tag, and the embedding stores
  the payload as the pixel content, so that an instance shows what was embedded.
\<close>

definition example_env :: "string env" where
  "example_env =
     \<lparr>BLOCK_SIZE = 32,
      image_open = (\<lambda>p. if p = ''image.png''
                          then Inr \<lparr>format = Some ''PNG'', size_image = (4, 2), pixels = []\<rparr>
                          else Inl (Builtin (OtherError ''FileNotFoundError''))),
      create_block_grid = spec_create_block_grid,
      arrange_blocks = (\<lambda>im s blocks. Inr (im\<lparr>format := None\<rparr>)),
      lsb_hide = (\<lambda>im payload. Inr (im\<lparr>pixels := payload\<rparr>))\<rparr>"

section \<open>The flattening loop\<close>

lemma flatten_from_blocks:
  "blocks_var (snd (flatten_from i s)) = blocks_var s"
proof (induction "length (blocks_var s) - i" arbitrary: i s)
  case 0
  then show ?case by (subst flatten_from.simps) simp
next
  case (Suc n)
  then have lt: "i < length (blocks_var s)" by simp
  obtain x y where xy: "blocks_var s ! i = (x, y)" by (cases "blocks_var s ! i")
  show ?case
  proof (cases "py_int x")
    case (Inl e)
    then show ?thesis using lt xy by (subst flatten_from.simps) simp
  next
    case a: (Inr a)
    show ?thesis
    proof (cases "py_int y")
      case (Inl e)
      then show ?thesis using lt xy a by (subst flatten_from.simps) simp
    next
      case b: (Inr b)
      let ?s = "s\<lparr>number_list := (number_list s @ [a]) @ [b]\<rparr>"
      have "n = length (blocks_var ?s) - Suc i" using Suc.hyps(2) by simp
      from Suc.hyps(1)[OF this]
      show ?thesis using lt xy a b by (subst flatten_from.simps) simp
    qed
  qed
qed

lemma flatten_from_coerce_all:
  "i \<le> length (blocks_var s) \<Longrightarrow>
   (case coerce_all (drop i (blocks_var s)) :: builtin_error + int list of
      Inl e \<Rightarrow> fst (flatten_from i s :: builtin_error option \<times> flatten_state) = Some e
    | Inr ns \<Rightarrow> flatten_from i s = (None, s\<lparr>number_list := number_list s @ ns\<rparr>))"
proof (induction "length (blocks_var s) - i" arbitrary: i s)
  case 0
  then show ?case by (subst flatten_from.simps) simp
next
  case (Suc n)
  then have lt: "i < length (blocks_var s)" by simp
  obtain x y where xy: "blocks_var s ! i = (x, y)" by (cases "blocks_var s ! i")
  have dr: "drop i (blocks_var s) = (x, y) # drop (Suc i) (blocks_var s)"
    using lt xy by (simp add: Cons_nth_drop_Suc[symmetric])
  show ?case
  proof (cases "py_int x :: builtin_error + int")
    case (Inl e)
    then show ?thesis using lt xy dr by (subst flatten_from.simps) simp
  next
    case a: (Inr a)
    show ?thesis
    proof (cases "py_int y :: builtin_error + int")
      case (Inl e)
      then show ?thesis using lt xy a dr by (subst flatten_from.simps) simp
    next
      case b: (Inr b)
      let ?s = "s\<lparr>number_list := (number_list s @ [a]) @ [b]\<rparr>"
      have n: "n = length (blocks_var ?s) - Suc i" using Suc.hyps(2) by simp
      have le: "Suc i \<le> length (blocks_var ?s)" using lt by simp
      have st: "flatten_from i s = (flatten_from (Suc i) ?s :: builtin_error option \<times> flatten_state)"
        using lt xy a b by (subst flatten_from.simps) simp
      from Suc.hyps(1)[OF n le]
      show ?thesis using a b dr st by (auto split: sum.splits)
    qed
  qed
qed

lemma coerce_all_int_pair:
  "coerce_all (map int_pair cs) = Inr (concat (map (\<lambda>c. [fst c, snd c]) cs))"
  by (induction cs) (auto simp: int_pair_def)

lemma coerce_all_length: "coerce_all bs = Inr ns \<Longrightarrow> length ns = 2 * length bs"
  by (induction bs arbitrary: ns rule: coerce_all.induct) (auto split: sum.splits)

lemma coerce_all_errors:
  "coerce_all bs = Inl e \<Longrightarrow> e = ValueError \<or> e = OverflowError"
proof (induction bs rule: coerce_all.induct)
  case 1
  then show ?case by simp
next
  case (2 x y bs)
  then show ?case
    by (cases x; cases y) (auto split: sum.splits)
qed

lemma coerce_all_nth:
  "coerce_all bs = Inr ns \<Longrightarrow> k < length bs \<Longrightarrow>
     py_int (fst (bs ! k)) = Inr (ns ! (2 * k)) \<and> py_int (snd (bs ! k)) = Inr (ns ! (2 * k + 1))"
proof (induction bs arbitrary: ns k rule: coerce_all.induct)
  case 1
  then show ?case by simp
next
  case (2 x y bs)
  then show ?case
    by (cases k) (auto split: sum.splits)
qed

section \<open>The characters of the payload\<close>

lemma str_nat_chars:
  assumes "\<And>d. d < 10 \<Longrightarrow> digit_char d \<in> A"
  shows "set (str_nat n) \<subseteq> A"
proof (induction n rule: str_nat.induct)
  case (1 n)
  show ?case
  proof (cases "n < 10")
    case True
    then show ?thesis using assms[of n] by (subst str_nat.simps) simp
  next
    case False
    have "digit_char (n mod 10) \<in> A" by (rule assms) simp
    then show ?thesis using False 1 by (subst str_nat.simps) simp
  qed
qed

lemma str_int_chars:
  assumes "\<And>d. d < 10 \<Longrightarrow> digit_char d \<in> A" and "CHR ''-'' \<in> A"
  shows "set (str_int i) \<subseteq> A"
  using str_nat_chars[OF assms(1), of "nat i"] str_nat_chars[OF assms(1), of "nat (- i)"] assms(2)
  by (simp add: str_int_def)

lemma join_items_chars:
  "(\<And>s. s \<in> set ss \<Longrightarrow> set s \<subseteq> A) \<Longrightarrow> CHR '','' \<in> A \<Longrightarrow> set (join_items ss) \<subseteq> A"
  by (induction ss rule: join_items.induct) simp_all

lemma json_dumps_chars_gen:
  assumes "\<And>d. d < 10 \<Longrightarrow> digit_char d \<in> A" and "CHR ''-'' \<in> A"
    and "CHR '','' \<in> A" and "CHR ''['' \<in> A" and "CHR '']'' \<in> A"
  shows "set (json_dumps ns) \<subseteq> A"
proof -
  have "set (join_items (map str_int ns)) \<subseteq> A"
  proof (rule join_items_chars)
    fix s assume "s \<in> set (map str_int ns)"
    then obtain i where "s = str_int i" by auto
    then show "set s \<subseteq> A" using str_int_chars[OF assms(1,2), of i] by simp
  qed (rule assms(3))
  then show ?thesis using assms(4,5) by (simp add: json_dumps_def)
qed

lemma alphabet_split: "''[],-0123456789'' = ''[],-'' @ ''0123456789''"
  by simp

lemma digit_alphabet: "d < 10 \<Longrightarrow> digit_char d \<in> set ''[],-0123456789''"
proof -
  assume "d < 10"
  then have "digit_char d \<in> set ''0123456789''"
    unfolding digit_char_def by (intro nth_mem) simp
  then show ?thesis unfolding alphabet_split set_append by (rule UnI2)
qed

lemma punct_alphabet:
  "CHR ''-'' \<in> set ''[],-0123456789''" "CHR '','' \<in> set ''[],-0123456789''"
  "CHR ''['' \<in> set ''[],-0123456789''" "CHR '']'' \<in> set ''[],-0123456789''"
  by simp_all

section \<open>The shuffle is a permutation\<close>

lemma swap_nth:
  assumes "a < length xs" "b < length xs" "m < length xs"
  shows "xs[a := xs ! b, b := xs ! a] ! m = xs ! (if m = b then a else if m = a then b else m)"
  using assms by (simp add: nth_list_update)

lemma swap_bij:
  assumes "a < n" "b < n"
  shows "bij_betw (\<lambda>m. if m = b then a else if m = a then b else m) {..<n} {..<n::nat}"
  by (rule bij_betw_byWitness[where f' = "\<lambda>m. if m = b then a else if m = a then b else m"])
     (use assms in \<open>auto split: if_splits\<close>)

lemma shuffle_from_length: "length (fst (shuffle_from i xs g)) = length xs"
  by (induction i arbitrary: xs g) (auto split: prod.splits)

lemma shuffle_from_bij:
  "i < length xs \<Longrightarrow>
   \<exists>p. bij_betw p {..<length xs} {..<length xs} \<and>
       fst (shuffle_from i xs g) = map (\<lambda>k. xs ! p k) [0..<length xs]"
proof (induction i arbitrary: xs g)
  case 0
  have "bij_betw id {..<length xs} {..<length xs}" by simp
  moreover have "fst (shuffle_from 0 xs g) = map (\<lambda>k. xs ! id k) [0..<length xs]"
    by (simp add: map_nth)
  ultimately show ?case by blast
next
  case (Suc i)
  obtain j g' where r: "random_interval g (Suc i) = (j, g')"
    by (cases "random_interval g (Suc i)")
  then have "j = g 0 mod Suc (Suc i)" by (simp add: random_interval_def)
  moreover have "g 0 mod Suc (Suc i) < Suc (Suc i)" by (rule mod_less_divisor) simp
  ultimately have j: "j < length xs" using Suc.prems by linarith
  let ?ys = "xs[Suc i := xs ! j, j := xs ! Suc i]"
  let ?t = "\<lambda>m. if m = j then Suc i else if m = Suc i then j else m"
  have len: "length ?ys = length xs" by simp
  have "i < length ?ys" using Suc.prems by simp
  from Suc.IH[OF this, of g'] obtain q where
    q: "bij_betw q {..<length xs} {..<length xs}"
    and res: "fst (shuffle_from i ?ys g') = map (\<lambda>k. ?ys ! q k) [0..<length xs]"
    unfolding len by blast
  have t: "bij_betw ?t {..<length xs} {..<length xs}"
    using swap_bij[OF Suc.prems j] .
  have "bij_betw (?t \<circ> q) {..<length xs} {..<length xs}"
    using q t by (rule bij_betw_trans)
  moreover have "fst (shuffle_from (Suc i) xs g) = map (\<lambda>k. xs ! (?t \<circ> q) k) [0..<length xs]"
  proof -
    have "map (\<lambda>k. ?ys ! q k) [0..<length xs] = map (\<lambda>k. xs ! (?t \<circ> q) k) [0..<length xs]"
    proof (rule map_cong[OF refl])
      fix k assume "k \<in> set [0..<length xs]"
      then have "q k < length xs" using q by (auto simp: bij_betw_def)
      from swap_nth[OF Suc.prems j this] show "?ys ! q k = xs ! (?t \<circ> q) k" by simp
    qed
    then show ?thesis using r res by simp
  qed
  ultimately show ?case by blast
qed

lemma shuffle_bij:
  "\<exists>p. bij_betw p {..<length xs} {..<length xs} \<and>
       fst (shuffle xs g) = map (\<lambda>k. xs ! p k) [0..<length xs]"
proof (cases xs)
  case Nil
  have "bij_betw id {..<length xs} {..<length xs}" by simp
  then show ?thesis using Nil by (auto simp: shuffle_def)
next
  case (Cons a list)
  then have "length xs - 1 < length xs" by simp
  from shuffle_from_bij[OF this] show ?thesis by (simp add: shuffle_def)
qed

lemma shuffle_from_mset:
  "i < length xs \<Longrightarrow> mset (fst (shuffle_from i xs g)) = mset xs"
proof (induction i arbitrary: xs g)
  case 0
  then show ?case by simp
next
  case (Suc i)
  obtain j g' where r: "random_interval g (Suc i) = (j, g')" by (cases "random_interval g (Suc i)")
  then have j: "j \<le> Suc i" by (auto simp: random_interval_def)
  let ?ys = "xs[Suc i := xs ! j, j := xs ! Suc i]"
  have "mset ?ys = mset xs" using Suc.prems j by (intro mset_swap) auto
  moreover have "i < length ?ys" using Suc.prems by simp
  ultimately show ?case using Suc.IH[of ?ys g'] r by simp
qed

lemma shuffle_mset: "mset (fst (shuffle xs g)) = mset xs"
proof (cases xs)
  case Nil
  then show ?thesis by (simp add: shuffle_def)
next
  case (Cons a list)
  then show ?thesis by (simp add: shuffle_def shuffle_from_mset)
qed

lemma shuffle_from_identity:
  "fst (shuffle_from i xs (\<lambda>k. i - k)) = xs"
proof (induction i arbitrary: xs)
  case 0
  then show ?case by simp
next
  case (Suc i)
  have "random_interval (\<lambda>k. Suc i - k) (Suc i) = (Suc i, \<lambda>k. i - k)"
    by (simp add: random_interval_def)
  then show ?case using Suc.IH by simp
qed

lemma shuffle_identity: "fst (shuffle xs (\<lambda>k. (length xs - 1) - k)) = xs"
  unfolding shuffle_def by (rule shuffle_from_identity)

section \<open>The functions of the module, characterised\<close>

lemma json_dumps_alphabet: "set (json_dumps ns) \<subseteq> set ''[],-0123456789''"
  by (rule json_dumps_chars_gen) (rule digit_alphabet punct_alphabet | assumption)+

lemma floor_nonneg_facts:
  fixes r :: rat
  assumes "0 \<le> r"
  shows "0 \<le> \<lfloor>r\<rfloor>" and "of_int \<lfloor>r\<rfloor> \<le> r" and "r - of_int \<lfloor>r\<rfloor> < 1"
proof -
  show "0 \<le> \<lfloor>r\<rfloor>" using assms by simp
  show "of_int \<lfloor>r\<rfloor> \<le> r" by simp
  show "r - of_int \<lfloor>r\<rfloor> < 1" by linarith
qed

lemma truncate_rat_truncates: "truncates_to q (truncate_rat q)"
proof (cases "q < 0")
  case True
  then have r: "0 \<le> - q" by simp
  note f = floor_nonneg_facts[OF r]
  have n: "truncate_rat q = - \<lfloor>- q\<rfloor>" using True by (simp add: truncate_rat_def)
  have a: "0 \<le> (of_int \<lfloor>- q\<rfloor> :: rat)" using f(1) by simp
  have "\<bar>of_int (- \<lfloor>- q\<rfloor>) :: rat\<bar> \<le> \<bar>q\<bar>" using f(2) a r by simp
  moreover have "\<bar>q - of_int (- \<lfloor>- q\<rfloor>)\<bar> < 1"
  proof -
    have "of_int \<lfloor>- q\<rfloor> \<le> - q" by (rule of_int_floor_le)
    moreover have "q - of_int (- \<lfloor>- q\<rfloor>) = q + of_int \<lfloor>- q\<rfloor>" by simp
    ultimately show ?thesis using f(3) by linarith
  qed
  moreover have "0 \<le> q * of_int (- \<lfloor>- q\<rfloor>)"
  proof -
    have "q * of_int (- \<lfloor>- q\<rfloor>) = (- q) * of_int \<lfloor>- q\<rfloor>" by simp
    then show ?thesis using r a by (simp only: mult_nonneg_nonneg)
  qed
  ultimately show ?thesis unfolding truncates_to_def n by blast
next
  case False
  then have r: "0 \<le> q" by simp
  note f = floor_nonneg_facts[OF r]
  have n: "truncate_rat q = \<lfloor>q\<rfloor>" using False by (simp add: truncate_rat_def)
  have a: "0 \<le> (of_int \<lfloor>q\<rfloor> :: rat)" using f(1) by simp
  have "\<bar>of_int \<lfloor>q\<rfloor> :: rat\<bar> \<le> \<bar>q\<bar>" using f(2) a r by simp
  moreover have "\<bar>q - of_int \<lfloor>q\<rfloor>\<bar> < 1" using f(2,3) by simp
  moreover have "0 \<le> q * of_int \<lfloor>q\<rfloor>" using r a by simp
  ultimately show ?thesis unfolding truncates_to_def n by blast
qed

lemma py_int_coerced: "py_int v = Inr n \<Longrightarrow> coerced v n"
  by (cases v) (auto simp: truncate_rat_truncates)

lemma flatten_from_0_Inl:
  "coerce_all blocks = Inl e \<Longrightarrow>
     fst (flatten_from 0 \<lparr>blocks_var = blocks, number_list = []\<rparr>) = Some e"
  using flatten_from_coerce_all[of 0 "\<lparr>blocks_var = blocks, number_list = []\<rparr>"]
  by simp

lemma flatten_from_0_Inr:
  "coerce_all blocks = Inr ns \<Longrightarrow>
     flatten_from 0 \<lparr>blocks_var = blocks, number_list = []\<rparr> =
       (None, \<lparr>blocks_var = blocks, number_list = ns\<rparr>)"
  using flatten_from_coerce_all[of 0 "\<lparr>blocks_var = blocks, number_list = []\<rparr>"]
  by simp

lemma add_data_image_eq:
  assumes "resolve_image env img = Inr im" and "\<not> format_rejected im"
  shows "add_data_image env img blocks =
           (case coerce_all blocks of
              Inl e \<Rightarrow> Inl (Builtin e)
            | Inr ns \<Rightarrow> lsb_hide env im (json_dumps ns),
            blocks)"
proof (cases "coerce_all blocks")
  case (Inl e)
  let ?r = "flatten_from 0 \<lparr>blocks_var = blocks, number_list = []\<rparr>"
  have "fst ?r = Some e" using Inl by (rule flatten_from_0_Inl)
  moreover have "blocks_var (snd ?r) = blocks" using flatten_from_blocks[of 0] by simp
  ultimately have "?r = (Some e, snd ?r) \<and> blocks_var (snd ?r) = blocks"
    by (simp add: prod_eq_iff)
  then obtain s where "?r = (Some e, s)" and "blocks_var s = blocks" by blast
  then show ?thesis using assms Inl by (simp add: add_data_image_def)
next
  case (Inr ns)
  then show ?thesis using assms flatten_from_0_Inr[OF Inr]
    by (simp add: add_data_image_def)
qed

lemma encode_blocks_Inr:
  assumes "encode_blocks env g img bs = (Inr (blocks, enc), g')"
    and "resolve_image env img = Inr im"
  shows "\<not> format_rejected im \<and>
         (\<exists>grid. create_block_grid env (fst (size_image im)) (snd (size_image im))
                    (default_block_size env bs) = Inr grid \<and>
                 shuffle grid g = (drop 2 blocks, g') \<and>
                 blocks = size_image im # (default_block_size env bs, default_block_size env bs)
                            # drop 2 blocks \<and>
                 arrange_blocks env im (default_block_size env bs) (drop 2 blocks) = Inr enc)"
  using assms
  by (auto simp: encode_blocks_def Let_def split: if_splits sum.splits prod.splits)

lemma shuffle_length: "length (fst (shuffle xs g)) = length xs"
  by (simp add: shuffle_def shuffle_from_length)

lemma flatten_pairs_Cons: "flatten_pairs (c # cs) = fst c # snd c # flatten_pairs cs"
  by (simp add: flatten_pairs_def)

lemma coerce_all_encoder: "coerce_all (map int_pair cs) = Inr (flatten_pairs cs)"
  by (simp add: coerce_all_int_pair flatten_pairs_def)

lemma resolve_image_Img: "resolve_image env (Img im) = Inr im"
  by (simp add: resolve_image_def)


lemma is_format_error_simps:
  "is_format_error (Inl (ImageFormatError x))"
  "\<not> is_format_error (Inl (Builtin e))"
  "\<not> is_format_error (Inr v)"
  by (simp_all add: is_format_error_def)

lemma is_format_error_Inl: "is_format_error (Inl e) = (\<exists>x. e = ImageFormatError x)"
  by (cases e) (simp_all add: is_format_error_def)

lemma format_rejected_iff:
  "format_rejected im = (format im \<noteq> Some ''PNG'' \<and> format im \<noteq> None)"
  by (auto simp: format_rejected_def)


lemma truncates_to_unique:
  assumes "truncates_to q n"
  shows "n = truncate_rat q"
proof -
  from assms have a: "\<bar>of_int n\<bar> \<le> \<bar>q\<bar>" and b: "\<bar>q - of_int n\<bar> < 1"
    by (simp_all add: truncates_to_def)
  show ?thesis
  proof (cases "q < 0")
    case True
    have "of_int (- n) \<le> - q" using a True by linarith
    moreover have "- q < of_int (- n) + 1" using b by linarith
    ultimately have "\<lfloor>- q\<rfloor> = - n" by (rule floor_unique)
    then show ?thesis using True by (simp add: truncate_rat_def)
  next
    case False
    have "of_int n \<le> q" using a False by linarith
    moreover have "q < of_int n + 1" using b by linarith
    ultimately have "\<lfloor>q\<rfloor> = n" by (rule floor_unique)
    then show ?thesis using False by (simp add: truncate_rat_def)
  qed
qed

lemma coerced_py_int: "coerced v n \<Longrightarrow> py_int v = Inr n"
  by (cases v) (auto dest: truncates_to_unique)

lemma coerce_all_finite:
  "(\<exists>ns. coerce_all bs = Inr ns) = list_all (\<lambda>c. finite_num (fst c) \<and> finite_num (snd c)) bs"
proof (induction bs)
  case Nil
  show ?case by simp
next
  case (Cons c bs)
  obtain x y where c: "c = (x, y)" by (cases c)
  show ?case using Cons.IH unfolding c
    by (cases x; cases y; cases "coerce_all bs") auto
qed


lemma encode_blocks_length:
  assumes "encode_blocks env g img block_size = (Inr (blocks, encoded_img), g')"
  shows "2 \<le> length blocks"
  using assms
  by (auto simp: encode_blocks_def Let_def split: if_splits sum.splits prod.splits)

lemma flatten_pairs_length: "length (flatten_pairs cs) = 2 * length cs"
  by (induction cs) (simp_all add: flatten_pairs_def)


text \<open>Rewrite rules that evaluate the model at a concrete input.\<close>

lemmas eval_model =
  encode_blocks_def resolve_image_def example_env_def format_rejected_def
  default_block_size_def spec_create_block_grid_def grid_axis_def shuffle_def
  random_interval_def Let_def upt_conv_Cons

lemmas eval_json =
  wire_format_def json_dumps_def flatten_pairs_def str_int_def str_nat.simps digit_char_def


section \<open>The claims\<close>

text \<open>
  C1. Whenever \<^verbatim>\<open>encode_blocks\<close> returns \<^verbatim>\<open>(blocks, encoded_img)\<close> for an image of size \<open>(W, H)\<close> and
  block size \<open>S\<close>, and \<^verbatim>\<open>encoded_img\<close> passes the format gate of \<^verbatim>\<open>add_data_image\<close>, the text that
  \<^verbatim>\<open>add_data_image\<close>, and so \<^verbatim>\<open>encode\<close>, hands to \<^verbatim>\<open>stegano.lsb.hide\<close> is the JSON array
  \<^verbatim>\<open>[W,H,S,S,x0,y0,...,xn,yn]\<close> of the shuffled grid, and it consists of brackets, commas,
  minus signs and digits only: there is no whitespace in it.
\<close>

theorem encode_payload_wire_format:
  assumes eb: "encode_blocks env g img block_size = (Inr (blocks, encoded_img), g')"
    and im: "resolve_image env img = Inr im"
    and grid: "create_block_grid env (fst (size_image im)) (snd (size_image im))
                 (default_block_size env block_size) = Inr grid"
    and ok: "\<not> format_rejected encoded_img"
  shows "add_data_image env (Img encoded_img) (map int_pair blocks) =
           (lsb_hide env encoded_img
              (wire_format (size_image im) (default_block_size env block_size)
                 (fst (shuffle grid g))),
            map int_pair blocks) \<and>
         encode env g img block_size =
           (lsb_hide env encoded_img
              (wire_format (size_image im) (default_block_size env block_size)
                 (fst (shuffle grid g))),
            g') \<and>
         set (wire_format (size_image im) (default_block_size env block_size)
                (fst (shuffle grid g)))
           \<subseteq> set ''[],-0123456789''"
proof -
  let ?S = "default_block_size env block_size"
  from encode_blocks_Inr[OF eb im] grid have
    sh: "shuffle grid g = (drop 2 blocks, g')"
    and bl: "blocks = size_image im # (?S, ?S) # drop 2 blocks"
    by auto
  have perm: "fst (shuffle grid g) = drop 2 blocks" using sh by simp
  have "flatten_pairs blocks =
          fst (size_image im) # snd (size_image im) # ?S # ?S # flatten_pairs (drop 2 blocks)"
    by (subst bl) (simp add: flatten_pairs_Cons)
  then have js: "json_dumps (flatten_pairs blocks) =
                   wire_format (size_image im) ?S (fst (shuffle grid g))"
    by (simp add: wire_format_def perm)
  have add: "add_data_image env (Img encoded_img) (map int_pair blocks) =
               (lsb_hide env encoded_img (wire_format (size_image im) ?S (fst (shuffle grid g))),
                map int_pair blocks)"
    using add_data_image_eq[OF resolve_image_Img ok, of env "map int_pair blocks"] js
    by (simp add: coerce_all_encoder)
  have enc: "encode env g img block_size =
               (lsb_hide env encoded_img (wire_format (size_image im) ?S (fst (shuffle grid g))), g')"
    using eb add by (simp add: encode_def)
  have "set (wire_format (size_image im) ?S (fst (shuffle grid g))) \<subseteq> set ''[],-0123456789''"
    unfolding wire_format_def by (rule json_dumps_alphabet)
  with add enc show ?thesis by blast
qed

text \<open>
  An instance: a 4x2 PNG file and block size 2, with a random source that always draws 0.
  The two blocks are swapped and the payload is \<^verbatim>\<open>[4,2,2,2,2,0,0,0]\<close>.
\<close>

theorem encode_payload_wire_format_witness:
  "encode_blocks example_env (\<lambda>k. 0) (Path ''image.png'') (Some 2) =
     (Inr ([(4, 2), (2, 2), (2, 0), (0, 0)],
           \<lparr>format = None, size_image = (4, 2), pixels = []\<rparr>), \<lambda>k. 0) \<and>
   resolve_image example_env (Path ''image.png'') =
     Inr \<lparr>format = Some ''PNG'', size_image = (4, 2), pixels = []\<rparr> \<and>
   create_block_grid example_env 4 2 2 = Inr [(0, 0), (2, 0)] \<and>
   \<not> format_rejected (\<lparr>format = None, size_image = (4, 2), pixels = []\<rparr> :: string image) \<and>
   encode example_env (\<lambda>k. 0) (Path ''image.png'') (Some 2) =
     (Inr \<lparr>format = None, size_image = (4, 2), pixels = ''[4,2,2,2,2,0,0,0]''\<rparr>, \<lambda>k. 0)"
proof -
  let ?enc = "\<lparr>format = None, size_image = (4, 2), pixels = []\<rparr> :: string image"
  let ?im = "\<lparr>format = Some ''PNG'', size_image = (4, 2), pixels = []\<rparr> :: string image"
  have eb: "encode_blocks example_env (\<lambda>k. 0) (Path ''image.png'') (Some 2) =
              (Inr ([(4, 2), (2, 2), (2, 0), (0, 0)], ?enc), \<lambda>k. 0)"
    by (simp add: eval_model)
  have im: "resolve_image example_env (Path ''image.png'') = Inr ?im"
    by (simp add: eval_model)
  have grid: "create_block_grid example_env 4 2 2 = Inr [(0, 0), (2, 0)]"
    by (simp add: eval_model)
  then have grid': "create_block_grid example_env (fst (size_image ?im)) (snd (size_image ?im))
                      (default_block_size example_env (Some 2)) = Inr [(0, 0), (2, 0)]"
    by (simp add: default_block_size_def)
  have ok: "\<not> format_rejected ?enc" by (simp add: format_rejected_def)
  have e: "encode example_env (\<lambda>k. 0) (Path ''image.png'') (Some 2) =
          (Inr \<lparr>format = None, size_image = (4, 2), pixels = ''[4,2,2,2,2,0,0,0]''\<rparr>, \<lambda>k. 0)"
    using encode_payload_wire_format[OF eb im grid' ok]
    by (simp add: eval_model eval_json)
  show ?thesis by (intro conjI) (fact eb, fact im, fact grid, fact ok, fact e)
qed

text \<open>
  C2. The list returned by \<^verbatim>\<open>encode_blocks\<close> has the image's \<open>(width, height)\<close> as its first
  entry and \<open>(block_size, block_size)\<close> as its second, followed by the shuffled grid: it is two
  entries longer than the grid.
\<close>

theorem encode_blocks_sentinels:
  assumes eb: "encode_blocks env g img block_size = (Inr (blocks, encoded_img), g')"
    and im: "resolve_image env img = Inr im"
    and grid: "create_block_grid env (fst (size_image im)) (snd (size_image im))
                 (default_block_size env block_size) = Inr grid"
  shows "blocks ! 0 = size_image im \<and>
         blocks ! 1 = (default_block_size env block_size, default_block_size env block_size) \<and>
         drop 2 blocks = fst (shuffle grid g) \<and>
         length blocks = length grid + 2 \<and>
         blocks = size_image im
                    # (default_block_size env block_size, default_block_size env block_size)
                    # fst (shuffle grid g)"
proof -
  let ?S = "default_block_size env block_size"
  from encode_blocks_Inr[OF eb im] grid have
    sh: "shuffle grid g = (drop 2 blocks, g')"
    and bl: "blocks = size_image im # (?S, ?S) # drop 2 blocks"
    by auto
  have perm: "drop 2 blocks = fst (shuffle grid g)" using sh by simp
  have full: "blocks = size_image im # (?S, ?S) # fst (shuffle grid g)"
    using bl perm by simp
  have "length blocks = length grid + 2"
    by (subst full) (simp add: shuffle_length)
  moreover have "blocks ! 0 = size_image im" by (subst full) simp
  moreover have "blocks ! 1 = (?S, ?S)" by (subst full) simp
  ultimately show ?thesis using perm full by blast
qed

text \<open>
  An instance: on a 256x256 PNG image with block size 32 the grid has 64 coordinates and the
  first two pairs of the 66 returned are \<open>(256, 256)\<close> and \<open>(32, 32)\<close>.
\<close>

theorem encode_blocks_sentinels_witness:
  "\<exists>grid blocks encoded_img g'.
     encode_blocks example_env (\<lambda>k. 0)
       (Img \<lparr>format = Some ''PNG'', size_image = (256, 256), pixels = []\<rparr>) (Some 32) =
       (Inr (blocks, encoded_img), g') \<and>
     create_block_grid example_env 256 256 32 = Inr grid \<and>
     length grid = 64 \<and>
     blocks ! 0 = (256, 256) \<and> blocks ! 1 = (32, 32) \<and> length blocks = 66"
proof -
  let ?im = "\<lparr>format = Some ''PNG'', size_image = (256, 256), pixels = []\<rparr> :: string image"
  obtain grid where grid: "create_block_grid example_env 256 256 32 = Inr grid"
    and len: "length grid = 64"
    by (simp add: eval_model)
  let ?blocks = "(256, 256) # (32, 32) # fst (shuffle grid (\<lambda>k. 0))"
  let ?enc = "?im\<lparr>format := None\<rparr>"
  let ?g' = "snd (shuffle grid (\<lambda>k. 0))"
  have eb: "encode_blocks example_env (\<lambda>k. 0) (Img ?im) (Some 32) = (Inr (?blocks, ?enc), ?g')"
    using grid
    by (simp add: encode_blocks_def resolve_image_def example_env_def format_rejected_def
          default_block_size_def case_prod_beta)
  have im: "resolve_image example_env (Img ?im) = Inr ?im" by (simp add: resolve_image_def)
  have grid': "create_block_grid example_env (fst (size_image ?im)) (snd (size_image ?im))
                 (default_block_size example_env (Some 32)) = Inr grid"
    using grid by (simp add: default_block_size_def)
  from encode_blocks_sentinels[OF eb im grid'] len
  have "?blocks ! 0 = (256, 256) \<and> ?blocks ! 1 = (32, 32) \<and> length ?blocks = 66"
    by (simp add: default_block_size_def)
  with eb grid len show ?thesis by blast
qed

text \<open>
  C3. Provided the collaborators do not raise \<^verbatim>\<open>ImageFormatError\<close> themselves,
  \<^verbatim>\<open>add_data_image\<close> and \<^verbatim>\<open>encode_blocks\<close> raise \<^verbatim>\<open>ImageFormatError\<close> if and only if the format of the
  image is neither \<^verbatim>\<open>"PNG"\<close> nor \<^verbatim>\<open>None\<close>; the exception then carries that image.
\<close>

theorem format_gate_iff:
  assumes im: "resolve_image env img = Inr im"
    and hide: "\<And>x s. \<not> is_format_error (lsb_hide env x s)"
    and cbg: "\<And>w h s. \<not> is_format_error (create_block_grid env w h s)"
    and arr: "\<And>x s b. \<not> is_format_error (arrange_blocks env x s b)"
  shows "is_format_error (fst (add_data_image env img blocks)) =
           (format im \<noteq> Some ''PNG'' \<and> format im \<noteq> None) \<and>
         is_format_error (fst (encode_blocks env g img block_size)) =
           (format im \<noteq> Some ''PNG'' \<and> format im \<noteq> None) \<and>
         (format im \<noteq> Some ''PNG'' \<and> format im \<noteq> None \<longrightarrow>
            fst (add_data_image env img blocks) = Inl (ImageFormatError im) \<and>
            fst (encode_blocks env g img block_size) = Inl (ImageFormatError im))"
proof (cases "format_rejected im")
  case True
  have "fst (add_data_image env img blocks) = Inl (ImageFormatError im)"
    using im True by (simp add: add_data_image_def)
  moreover have "fst (encode_blocks env g img block_size) = Inl (ImageFormatError im)"
    using im True by (simp add: encode_blocks_def)
  ultimately show ?thesis using True
    by (simp add: format_rejected_iff is_format_error_simps)
next
  case False
  have a: "\<not> is_format_error (fst (add_data_image env img blocks))"
    using add_data_image_eq[OF im False, of blocks] hide
    by (cases "coerce_all blocks") (simp_all add: is_format_error_simps)
  have b: "\<not> is_format_error (fst (encode_blocks env g img block_size))"
  proof -
    let ?S = "default_block_size env block_size"
    let ?c = "create_block_grid env (fst (size_image im)) (snd (size_image im)) ?S"
    show ?thesis
    proof (cases ?c)
      case (Inl e)
      then have "fst (encode_blocks env g img block_size) = Inl e"
        using im False by (simp add: encode_blocks_def)
      moreover have "\<not> is_format_error ?c" by (rule cbg)
      ultimately show ?thesis using Inl by (simp add: is_format_error_Inl)
    next
      case (Inr grid)
      let ?a = "arrange_blocks env im ?S (fst (shuffle grid g))"
      show ?thesis
      proof (cases ?a)
        case e: (Inl e)
        then have "fst (encode_blocks env g img block_size) = Inl e"
          using im False Inr by (simp add: encode_blocks_def case_prod_beta)
        moreover have "\<not> is_format_error ?a" by (rule arr)
        ultimately show ?thesis using e by (simp add: is_format_error_Inl)
      next
        case (Inr enc)
        then show ?thesis using im False \<open>?c = Inr grid\<close>
          by (simp add: encode_blocks_def case_prod_beta Let_def is_format_error_simps)
      qed
    qed
  qed
  show ?thesis using a b False by (auto simp: format_rejected_iff)
qed

text \<open>
  An instance: a JPEG image is rejected by both functions, the PNG file by neither.
\<close>

theorem format_gate_iff_witness:
  "resolve_image example_env
     (Img \<lparr>format = Some ''JPEG'', size_image = (4, 2), pixels = []\<rparr>) =
     Inr \<lparr>format = Some ''JPEG'', size_image = (4, 2), pixels = []\<rparr> \<and>
   (\<forall>x s. \<not> is_format_error (lsb_hide example_env x s)) \<and>
   (\<forall>w h s. \<not> is_format_error (create_block_grid example_env w h s)) \<and>
   (\<forall>x s b. \<not> is_format_error (arrange_blocks example_env x s b)) \<and>
   is_format_error (fst (add_data_image example_env
     (Img \<lparr>format = Some ''JPEG'', size_image = (4, 2), pixels = []\<rparr>) [(IntV 0, IntV 0)])) \<and>
   is_format_error (fst (encode_blocks example_env (\<lambda>k. 0)
     (Img \<lparr>format = Some ''JPEG'', size_image = (4, 2), pixels = []\<rparr>) (Some 2))) \<and>
   \<not> is_format_error (fst (add_data_image example_env (Path ''image.png'') [(IntV 0, IntV 0)])) \<and>
   \<not> is_format_error (fst (encode_blocks example_env (\<lambda>k. 0) (Path ''image.png'') (Some 2)))"
proof -
  let ?jpeg = "\<lparr>format = Some ''JPEG'', size_image = (4, 2), pixels = []\<rparr> :: string image"
  let ?png = "\<lparr>format = Some ''PNG'', size_image = (4, 2), pixels = []\<rparr> :: string image"
  have im: "resolve_image example_env (Img ?jpeg) = Inr ?jpeg" by (simp add: resolve_image_def)
  have im': "resolve_image example_env (Path ''image.png'') = Inr ?png"
    by (simp add: resolve_image_def example_env_def)
  have hide: "\<not> is_format_error (lsb_hide example_env x s)" for x s
    by (simp add: example_env_def is_format_error_def)
  have cbg: "\<not> is_format_error (create_block_grid example_env w h s)" for w h s
    by (simp add: example_env_def spec_create_block_grid_def is_format_error_def)
  have arr: "\<not> is_format_error (arrange_blocks example_env x s b)" for x s b
    by (simp add: example_env_def is_format_error_def)
  note j = format_gate_iff[OF im hide cbg arr, of "[(IntV 0, IntV 0)]" "\<lambda>k. 0" "Some 2"]
  note p = format_gate_iff[OF im' hide cbg arr, of "[(IntV 0, IntV 0)]" "\<lambda>k. 0" "Some 2"]
  have j1: "is_format_error (fst (add_data_image example_env (Img ?jpeg) [(IntV 0, IntV 0)]))"
    using j by (simp add: is_format_error_simps)
  have j2: "is_format_error (fst (encode_blocks example_env (\<lambda>k. 0) (Img ?jpeg) (Some 2)))"
    using j by (simp add: is_format_error_simps)
  have p1: "\<not> is_format_error (fst (add_data_image example_env (Path ''image.png'') [(IntV 0, IntV 0)]))"
    using p by (simp add: is_format_error_simps)
  have p2: "\<not> is_format_error (fst (encode_blocks example_env (\<lambda>k. 0) (Path ''image.png'') (Some 2)))"
    using p by (simp add: is_format_error_simps)
  show ?thesis using im hide cbg arr j1 j2 p1 p2 by (intro conjI allI)
qed


text \<open>
  C4. For an image whose declared format is a string other than \<^verbatim>\<open>"PNG"\<close>, \<^verbatim>\<open>encode_blocks\<close> and
  \<^verbatim>\<open>encode\<close> raise \<^verbatim>\<open>ImageFormatError\<close> and leave the random source as it was. The outcome is the
  same whatever the configured block size, the grid builder, the arranger and the embedding
  are, also when each of them would raise: none of them has been run.
\<close>

theorem unsupported_format_raises_first:
  assumes im: "resolve_image env img = Inr im"
    and fmt: "format im = Some f" and unsupported: "f \<noteq> ''PNG''"
  shows "encode_blocks env g img block_size = (Inl (ImageFormatError im), g) \<and>
         encode env g img block_size = (Inl (ImageFormatError im), g) \<and>
         encode_blocks (env\<lparr>BLOCK_SIZE := b, create_block_grid := c, arrange_blocks := a,
                            lsb_hide := h\<rparr>) g img block_size =
           (Inl (ImageFormatError im), g) \<and>
         encode (env\<lparr>BLOCK_SIZE := b, create_block_grid := c, arrange_blocks := a,
                     lsb_hide := h\<rparr>) g img block_size =
           (Inl (ImageFormatError im), g)"
proof -
  have rej: "format_rejected im" using fmt unsupported by (simp add: format_rejected_iff)
  have eb: "encode_blocks e g img block_size = (Inl (ImageFormatError im), g)"
    if "resolve_image e img = Inr im" for e :: "'a env"
    using that rej by (simp add: encode_blocks_def)
  have en: "encode e g img block_size = (Inl (ImageFormatError im), g)"
    if "resolve_image e img = Inr im" for e :: "'a env"
    using eb[OF that] by (simp add: encode_def)
  let ?e = "env\<lparr>BLOCK_SIZE := b, create_block_grid := c, arrange_blocks := a, lsb_hide := h\<rparr>"
  have im': "resolve_image ?e img = Inr im"
    using im by (simp add: resolve_image_def split: image_arg.splits)
  show ?thesis using eb[OF im] en[OF im] eb[OF im'] en[OF im'] by (intro conjI)
qed

text \<open>
  An instance: a JPEG image, once in the example environment and once with collaborators
  that all raise.
\<close>

theorem unsupported_format_raises_first_witness:
  "resolve_image example_env
     (Img \<lparr>format = Some ''JPEG'', size_image = (4, 2), pixels = []\<rparr>) =
     Inr \<lparr>format = Some ''JPEG'', size_image = (4, 2), pixels = []\<rparr> \<and>
   format (\<lparr>format = Some ''JPEG'', size_image = (4, 2), pixels = []\<rparr> :: string image) =
     Some ''JPEG'' \<and>
   ''JPEG'' \<noteq> ''PNG'' \<and>
   encode example_env (\<lambda>k. k)
     (Img \<lparr>format = Some ''JPEG'', size_image = (4, 2), pixels = []\<rparr>) None =
     (Inl (ImageFormatError \<lparr>format = Some ''JPEG'', size_image = (4, 2), pixels = []\<rparr>),
      \<lambda>k. k) \<and>
   encode (example_env\<lparr>BLOCK_SIZE := 0,
                       create_block_grid := (\<lambda>w h s. Inl (Builtin ValueError)),
                       arrange_blocks := (\<lambda>x s b. Inl (Builtin (OtherError ''ShapeMismatch''))),
                       lsb_hide := (\<lambda>x s. Inl (Builtin (OtherError ''too long'')))\<rparr>)
     (\<lambda>k. k) (Img \<lparr>format = Some ''JPEG'', size_image = (4, 2), pixels = []\<rparr>) None =
     (Inl (ImageFormatError \<lparr>format = Some ''JPEG'', size_image = (4, 2), pixels = []\<rparr>),
      \<lambda>k. k)"
proof -
  let ?jpeg = "\<lparr>format = Some ''JPEG'', size_image = (4, 2), pixels = []\<rparr> :: string image"
  have im: "resolve_image example_env (Img ?jpeg) = Inr ?jpeg" by (simp add: resolve_image_def)
  have fmt: "format ?jpeg = Some ''JPEG''" by simp
  have ne: "''JPEG'' \<noteq> ''PNG''" by simp
  note t = unsupported_format_raises_first[OF im fmt ne, where g = "\<lambda>k. k" and block_size = None]
  have a: "encode example_env (\<lambda>k. k) (Img ?jpeg) None = (Inl (ImageFormatError ?jpeg), \<lambda>k. k)"
    by (rule t[THEN conjunct2, THEN conjunct1])
  note t' = t[where b = 0 and c = "\<lambda>w h s. Inl (Builtin ValueError)"
            and a = "\<lambda>x s b. Inl (Builtin (OtherError ''ShapeMismatch''))"
            and h = "\<lambda>x s. Inl (Builtin (OtherError ''too long''))"]
  have b: "encode (example_env\<lparr>BLOCK_SIZE := 0,
                       create_block_grid := (\<lambda>w h s. Inl (Builtin ValueError)),
                       arrange_blocks := (\<lambda>x s b. Inl (Builtin (OtherError ''ShapeMismatch''))),
                       lsb_hide := (\<lambda>x s. Inl (Builtin (OtherError ''too long'')))\<rparr>)
             (\<lambda>k. k) (Img ?jpeg) None = (Inl (ImageFormatError ?jpeg), \<lambda>k. k)"
    by (rule t'[THEN conjunct2, THEN conjunct2, THEN conjunct2])
  show ?thesis by (intro conjI) (fact im, fact fmt, fact ne, fact a, fact b)
qed

text \<open>
  C5. The sequence that \<^verbatim>\<open>np.random.shuffle\<close> leaves inside \<^verbatim>\<open>encode_blocks\<close>, which is the returned
  list after its first two entries, holds the same multiset of coordinates as the grid: the
  same set and length, duplicate-free exactly when the grid is, and it is the grid read
  through a bijection of its positions. Some state of the random source leaves the grid in
  its own order, and \<^verbatim>\<open>encode_blocks\<close> then arranges and returns the grid unshuffled.
\<close>

theorem shuffle_is_permutation:
  assumes eb: "encode_blocks env g img block_size = (Inr (blocks, encoded_img), g')"
    and im: "resolve_image env img = Inr im"
    and grid: "create_block_grid env (fst (size_image im)) (snd (size_image im))
                 (default_block_size env block_size) = Inr grid"
  shows "drop 2 blocks = fst (shuffle grid g) \<and>
         mset (drop 2 blocks) = mset grid \<and>
         set (drop 2 blocks) = set grid \<and>
         length (drop 2 blocks) = length grid \<and>
         distinct (drop 2 blocks) = distinct grid \<and>
         (\<exists>p. bij_betw p {..<length grid} {..<length grid} \<and>
              drop 2 blocks = map (\<lambda>k. grid ! p k) [0..<length grid]) \<and>
         (\<exists>g0. fst (shuffle grid g0) = grid) \<and>
         (\<exists>g0. fst (encode_blocks env g0 img block_size) =
                 (case arrange_blocks env im (default_block_size env block_size) grid of
                    Inl e \<Rightarrow> Inl e
                  | Inr enc0 \<Rightarrow>
                      Inr (size_image im
                             # (default_block_size env block_size,
                                default_block_size env block_size)
                             # grid, enc0)))"
proof -
  from encode_blocks_Inr[OF eb im] grid have sh: "shuffle grid g = (drop 2 blocks, g')"
    by auto
  then have perm: "drop 2 blocks = fst (shuffle grid g)" by simp
  have m: "mset (drop 2 blocks) = mset grid" unfolding perm by (rule shuffle_mset)
  have s: "set (drop 2 blocks) = set grid" using m by (rule mset_eq_setD)
  have l: "length (drop 2 blocks) = length grid" using m by (rule mset_eq_length)
  have d: "distinct (drop 2 blocks) = distinct grid" using m by (rule mset_eq_imp_distinct_iff)
  have b: "\<exists>p. bij_betw p {..<length grid} {..<length grid} \<and>
              drop 2 blocks = map (\<lambda>k. grid ! p k) [0..<length grid]"
    unfolding perm by (rule shuffle_bij)
  have i: "\<exists>g0. fst (shuffle grid g0) = grid"
    using shuffle_identity[of grid] by blast
  have e: "\<exists>g0. fst (encode_blocks env g0 img block_size) =
                 (case arrange_blocks env im (default_block_size env block_size) grid of
                    Inl e \<Rightarrow> Inl e
                  | Inr enc0 \<Rightarrow>
                      Inr (size_image im
                             # (default_block_size env block_size,
                                default_block_size env block_size)
                             # grid, enc0))"
  proof -
    let ?g0 = "\<lambda>k. (length grid - 1) - k"
    have ok: "\<not> format_rejected im" using encode_blocks_Inr[OF eb im] by blast
    have id: "fst (shuffle grid ?g0) = grid" by (rule shuffle_identity)
    have "fst (encode_blocks env ?g0 img block_size) =
            (case arrange_blocks env im (default_block_size env block_size) grid of
               Inl e \<Rightarrow> Inl e
             | Inr enc0 \<Rightarrow>
                 Inr (size_image im
                        # (default_block_size env block_size,
                           default_block_size env block_size)
                        # grid, enc0))"
      using im ok grid id
      by (simp add: encode_blocks_def Let_def case_prod_beta split: sum.splits)
    then show ?thesis by blast
  qed
  show ?thesis
    by (intro conjI) (fact perm, fact m, fact s, fact l, fact d, fact b, fact i, fact e)
qed

text \<open>An instance: the two blocks of a 4x2 image with block size 2, swapped.\<close>

theorem shuffle_is_permutation_witness:
  "encode_blocks example_env (\<lambda>k. 0) (Path ''image.png'') (Some 2) =
     (Inr ([(4, 2), (2, 2), (2, 0), (0, 0)],
           \<lparr>format = None, size_image = (4, 2), pixels = []\<rparr>), \<lambda>k. 0) \<and>
   resolve_image example_env (Path ''image.png'') =
     Inr \<lparr>format = Some ''PNG'', size_image = (4, 2), pixels = []\<rparr> \<and>
   create_block_grid example_env 4 2 2 = Inr [(0, 0), (2, 0)] \<and>
   mset [(2, 0), (0, 0)] = mset ([(0, 0), (2, 0)] :: (int \<times> int) list) \<and>
   distinct ([(2, 0), (0, 0)] :: (int \<times> int) list) = distinct ([(0, 0), (2, 0)] :: (int \<times> int) list) \<and>
   (\<exists>g0. fst (shuffle ([(0, 0), (2, 0)] :: (int \<times> int) list) g0) = [(0, 0), (2, 0)])"
proof -
  let ?enc = "\<lparr>format = None, size_image = (4, 2), pixels = []\<rparr> :: string image"
  let ?im = "\<lparr>format = Some ''PNG'', size_image = (4, 2), pixels = []\<rparr> :: string image"
  have eb: "encode_blocks example_env (\<lambda>k. 0) (Path ''image.png'') (Some 2) =
              (Inr ([(4, 2), (2, 2), (2, 0), (0, 0)], ?enc), \<lambda>k. 0)"
    by (simp add: eval_model)
  have im: "resolve_image example_env (Path ''image.png'') = Inr ?im"
    by (simp add: eval_model)
  have grid: "create_block_grid example_env 4 2 2 = Inr [(0, 0), (2, 0)]"
    by (simp add: eval_model)
  then have grid': "create_block_grid example_env (fst (size_image ?im)) (snd (size_image ?im))
                      (default_block_size example_env (Some 2)) = Inr [(0, 0), (2, 0)]"
    by (simp add: default_block_size_def)
  note t = shuffle_is_permutation[OF eb im grid']
  have m: "mset [(2, 0), (0, 0)] = mset ([(0, 0), (2, 0)] :: (int \<times> int) list)"
    using t[THEN conjunct2, THEN conjunct1] by simp
  have d: "distinct ([(2, 0), (0, 0)] :: (int \<times> int) list) = distinct ([(0, 0), (2, 0)] :: (int \<times> int) list)"
    using t[THEN conjunct2, THEN conjunct2, THEN conjunct2, THEN conjunct2, THEN conjunct1]
    by simp
  have i: "\<exists>g0. fst (shuffle ([(0, 0), (2, 0)] :: (int \<times> int) list) g0) = [(0, 0), (2, 0)]"
    by (rule t[THEN conjunct2, THEN conjunct2, THEN conjunct2, THEN conjunct2, THEN conjunct2,
               THEN conjunct2, THEN conjunct1])
  show ?thesis by (intro conjI) (fact eb, fact im, fact grid, fact m, fact d, fact i)
qed

text \<open>
  C6. When the format gate is passed, every number that \<^verbatim>\<open>add_data_image\<close> serialises is an
  integer obtained from a component of a blocks entry by \<^verbatim>\<open>int()\<close>: an integer is kept, a finite
  float is truncated towards zero, two integers per entry in order. When a component is a NaN
  or an infinity the call raises \<^verbatim>\<open>ValueError\<close> or \<^verbatim>\<open>OverflowError\<close> and nothing is serialised.
\<close>

theorem add_data_image_coerces:
  assumes im: "resolve_image env img = Inr im" and ok: "\<not> format_rejected im"
  shows "if list_all (\<lambda>c. finite_num (fst c) \<and> finite_num (snd c)) blocks
         then \<exists>ns. add_data_image env img blocks = (lsb_hide env im (json_dumps ns), blocks) \<and>
                   length ns = 2 * length blocks \<and>
                   (\<forall>k<length blocks.
                      coerced (fst (blocks ! k)) (ns ! (2 * k)) \<and>
                      coerced (snd (blocks ! k)) (ns ! (2 * k + 1)))
         else fst (add_data_image env img blocks) = Inl (Builtin ValueError) \<or>
              fst (add_data_image env img blocks) = Inl (Builtin OverflowError)"
proof (cases "coerce_all blocks")
  case (Inl e)
  then have "\<not> list_all (\<lambda>c. finite_num (fst c) \<and> finite_num (snd c)) blocks"
    using coerce_all_finite[of blocks] by simp
  moreover have "fst (add_data_image env img blocks) = Inl (Builtin e)"
    using add_data_image_eq[OF im ok, of blocks] Inl by simp
  moreover have "e = ValueError \<or> e = OverflowError" using Inl by (rule coerce_all_errors)
  ultimately show ?thesis by auto
next
  case (Inr ns)
  then have fin: "list_all (\<lambda>c. finite_num (fst c) \<and> finite_num (snd c)) blocks"
    using coerce_all_finite[of blocks] by blast
  have a: "add_data_image env img blocks = (lsb_hide env im (json_dumps ns), blocks)"
    using add_data_image_eq[OF im ok, of blocks] Inr by simp
  have l: "length ns = 2 * length blocks" using Inr by (rule coerce_all_length)
  have c: "\<forall>k<length blocks.
             coerced (fst (blocks ! k)) (ns ! (2 * k)) \<and>
             coerced (snd (blocks ! k)) (ns ! (2 * k + 1))"
    using coerce_all_nth[OF Inr] by (auto intro: py_int_coerced)
  from a l c have "\<exists>ns. add_data_image env img blocks = (lsb_hide env im (json_dumps ns), blocks) \<and>
                   length ns = 2 * length blocks \<and>
                   (\<forall>k<length blocks.
                      coerced (fst (blocks ! k)) (ns ! (2 * k)) \<and>
                      coerced (snd (blocks ! k)) (ns ! (2 * k + 1)))"
    by blast
  then show ?thesis using fin by simp
qed

text \<open>
  An instance: the entries \<open>(3.5, -3.5)\<close> and \<open>(3, 1/3)\<close> are serialised as
  \<^verbatim>\<open>[3,-3,3,0]\<close>.
\<close>

theorem add_data_image_coerces_witness:
  "resolve_image example_env (Path ''image.png'') =
     Inr \<lparr>format = Some ''PNG'', size_image = (4, 2), pixels = []\<rparr> \<and>
   \<not> format_rejected (\<lparr>format = Some ''PNG'', size_image = (4, 2), pixels = []\<rparr> :: string image) \<and>
   add_data_image example_env (Path ''image.png'')
     [(FloatV (7 / 2), FloatV (- 7 / 2)), (IntV 3, FloatV (1 / 3))] =
     (Inr \<lparr>format = Some ''PNG'', size_image = (4, 2), pixels = ''[3,-3,3,0]''\<rparr>,
      [(FloatV (7 / 2), FloatV (- 7 / 2)), (IntV 3, FloatV (1 / 3))])"
proof -
  let ?im = "\<lparr>format = Some ''PNG'', size_image = (4, 2), pixels = []\<rparr> :: string image"
  let ?blocks = "[(FloatV (7 / 2), FloatV (- 7 / 2)), (IntV 3, FloatV (1 / 3))]"
  have im: "resolve_image example_env (Path ''image.png'') = Inr ?im"
    by (simp add: eval_model)
  have ok: "\<not> format_rejected ?im" by (simp add: format_rejected_def)
  have fin: "list_all (\<lambda>c. finite_num (fst c) \<and> finite_num (snd c)) ?blocks" by simp
  from add_data_image_coerces[OF im ok, of ?blocks] fin obtain ns where
    a: "add_data_image example_env (Path ''image.png'') ?blocks =
          (lsb_hide example_env ?im (json_dumps ns), ?blocks)"
    and l: "length ns = 2 * length ?blocks"
    and c: "\<forall>k<length ?blocks.
              coerced (fst (?blocks ! k)) (ns ! (2 * k)) \<and>
              coerced (snd (?blocks ! k)) (ns ! (2 * k + 1))"
    by auto
  have f72: "\<lfloor>7 / 2 :: rat\<rfloor> = 3" by (rule floor_unique) simp_all
  have f13: "\<lfloor>1 / 3 :: rat\<rfloor> = 0" by (rule floor_unique) simp_all
  have c0: "truncates_to (7 / 2) (ns ! 0)" "truncates_to (- 7 / 2) (ns ! 1)"
    using c[rule_format, of 0] by simp_all
  have n01: "ns ! 0 = 3" "ns ! 1 = - 3"
    using c0[THEN truncates_to_unique] by (simp_all add: truncate_rat_def f72)
  have c1: "ns ! 2 = 3" "truncates_to (1 / 3) (ns ! 3)"
    using c[rule_format, of 1] by simp_all
  have n23: "ns ! 2 = 3" "ns ! 3 = 0"
    using c1(1) c1(2)[THEN truncates_to_unique] by (simp_all add: truncate_rat_def f13)
  have "ns = [3, - 3, 3, 0]"
  proof (rule nth_equalityI)
    show "length ns = length [3, - 3, 3, 0 :: int]" using l by simp
  next
    fix i assume "i < length ns"
    then have "i = 0 \<or> i = 1 \<or> i = 2 \<or> i = 3" using l by auto
    then show "ns ! i = [3, - 3, 3, 0] ! i" using n01 n23 by auto
  qed
  then have e: "add_data_image example_env (Path ''image.png'') ?blocks =
          (Inr \<lparr>format = Some ''PNG'', size_image = (4, 2), pixels = ''[3,-3,3,0]''\<rparr>, ?blocks)"
    using a by (simp add: example_env_def eval_json)
  show ?thesis by (intro conjI) (fact im, fact ok, fact e)
qed

text \<open>
  C7. Without a block size, \<^verbatim>\<open>encode_blocks\<close> and \<^verbatim>\<open>encode\<close> do what they do with the configured
  \<^verbatim>\<open>C.BLOCK_SIZE\<close>; a block size that is supplied is used as it is. The size so chosen is the
  one the grid is built with, the blocks are arranged with, and the second pair holds.
\<close>

theorem block_size_default:
  "default_block_size env None = BLOCK_SIZE env \<and>
   default_block_size env (Some S) = S \<and>
   encode_blocks env g img None = encode_blocks env g img (Some (BLOCK_SIZE env)) \<and>
   encode env g img None = encode env g img (Some (BLOCK_SIZE env)) \<and>
   (\<forall>blocks encoded_img g' im.
      encode_blocks env g img block_size = (Inr (blocks, encoded_img), g') \<and>
      resolve_image env img = Inr im \<longrightarrow>
      (\<exists>grid. create_block_grid env (fst (size_image im)) (snd (size_image im))
                 (default_block_size env block_size) = Inr grid \<and>
              arrange_blocks env im (default_block_size env block_size)
                 (fst (shuffle grid g)) = Inr encoded_img \<and>
              blocks ! 1 = (default_block_size env block_size,
                            default_block_size env block_size)))"
proof -
  have d: "default_block_size env None = BLOCK_SIZE env" "default_block_size env (Some S) = S"
    by (simp_all add: default_block_size_def)
  have eb: "encode_blocks env g img None = encode_blocks env g img (Some (BLOCK_SIZE env))"
    by (simp add: encode_blocks_def default_block_size_def)
  then have en: "encode env g img None = encode env g img (Some (BLOCK_SIZE env))"
    by (simp add: encode_def)
  have u: "\<exists>grid. create_block_grid env (fst (size_image im)) (snd (size_image im))
                 (default_block_size env block_size) = Inr grid \<and>
              arrange_blocks env im (default_block_size env block_size)
                 (fst (shuffle grid g)) = Inr encoded_img \<and>
              blocks ! 1 = (default_block_size env block_size,
                            default_block_size env block_size)"
    if h: "encode_blocks env g img block_size = (Inr (blocks, encoded_img), g')"
      and im: "resolve_image env img = Inr im"
    for blocks encoded_img g' im
  proof -
    let ?S = "default_block_size env block_size"
    from encode_blocks_Inr[OF h im] obtain grid where
      grid: "create_block_grid env (fst (size_image im)) (snd (size_image im)) ?S = Inr grid"
      and sh: "shuffle grid g = (drop 2 blocks, g')"
      and bl: "blocks = size_image im # (?S, ?S) # drop 2 blocks"
      and arr: "arrange_blocks env im ?S (drop 2 blocks) = Inr encoded_img"
      by blast
    have "fst (shuffle grid g) = drop 2 blocks" using sh by simp
    moreover have "blocks ! 1 = (?S, ?S)" by (subst bl) simp
    ultimately show ?thesis using grid arr by auto
  qed
  show ?thesis using d eb en u by blast
qed

text \<open>
  An instance: with \<^verbatim>\<open>C.BLOCK_SIZE\<close> 32, no block size and block size 32 give the same list with
  the pair \<open>(32, 32)\<close>; block size 2 gives the pair \<open>(2, 2)\<close> and two blocks.
\<close>

theorem block_size_default_witness:
  "fst (encode_blocks example_env (\<lambda>k. 0) (Path ''image.png'') None) =
     Inr ([(4, 2), (32, 32), (0, 0)], \<lparr>format = None, size_image = (4, 2), pixels = []\<rparr>) \<and>
   fst (encode_blocks example_env (\<lambda>k. 0) (Path ''image.png'') (Some 32)) =
     Inr ([(4, 2), (32, 32), (0, 0)], \<lparr>format = None, size_image = (4, 2), pixels = []\<rparr>) \<and>
   fst (encode_blocks example_env (\<lambda>k. 0) (Path ''image.png'') (Some 2)) =
     Inr ([(4, 2), (2, 2), (2, 0), (0, 0)], \<lparr>format = None, size_image = (4, 2), pixels = []\<rparr>)"
proof -
  note t = block_size_default[of example_env _ "\<lambda>k. 0" "Path ''image.png''"]
  have s32: "fst (encode_blocks example_env (\<lambda>k. 0) (Path ''image.png'') (Some 32)) =
     Inr ([(4, 2), (32, 32), (0, 0)], \<lparr>format = None, size_image = (4, 2), pixels = []\<rparr>)"
    by (simp add: eval_model)
  have "BLOCK_SIZE example_env = 32" by (simp add: example_env_def)
  with t[THEN conjunct2, THEN conjunct2, THEN conjunct1] s32
  have n: "fst (encode_blocks example_env (\<lambda>k. 0) (Path ''image.png'') None) =
     Inr ([(4, 2), (32, 32), (0, 0)], \<lparr>format = None, size_image = (4, 2), pixels = []\<rparr>)"
    by simp
  have s2: "fst (encode_blocks example_env (\<lambda>k. 0) (Path ''image.png'') (Some 2)) =
     Inr ([(4, 2), (2, 2), (2, 0), (0, 0)], \<lparr>format = None, size_image = (4, 2), pixels = []\<rparr>)"
    by (simp add: eval_model)
  show ?thesis by (intro conjI) (fact n, fact s32, fact s2)
qed

text \<open>
  C8. On the list that \<^verbatim>\<open>encode_blocks\<close> returns, the loop of \<^verbatim>\<open>add_data_image\<close> ends without an
  exception and leaves in \<^verbatim>\<open>number_list\<close> two integers per entry: an even number of integers, at
  least 4. The shape check of the decoder does not fire on it, and it is the list that
  \<^verbatim>\<open>add_data_image\<close> and \<^verbatim>\<open>encode\<close> serialise when the arranged image passes the format gate.
\<close>

theorem encoder_payload_well_formed:
  assumes eb: "encode_blocks env g img block_size = (Inr (blocks, encoded_img), g')"
  shows "flatten_from 0 \<lparr>blocks_var = map int_pair blocks, number_list = []\<rparr> =
           (None, \<lparr>blocks_var = map int_pair blocks, number_list = flatten_pairs blocks\<rparr>) \<and>
         length (flatten_pairs blocks) = 2 * length blocks \<and>
         even (length (flatten_pairs blocks)) \<and>
         4 \<le> length (flatten_pairs blocks) \<and>
         \<not> malformed_payload (flatten_pairs blocks) \<and>
         fst (add_data_image env (Img encoded_img) (map int_pair blocks)) =
           (if format_rejected encoded_img then Inl (ImageFormatError encoded_img)
            else lsb_hide env encoded_img (json_dumps (flatten_pairs blocks))) \<and>
         fst (encode env g img block_size) =
           (if format_rejected encoded_img then Inl (ImageFormatError encoded_img)
            else lsb_hide env encoded_img (json_dumps (flatten_pairs blocks)))"
proof -
  have co: "coerce_all (map int_pair blocks) = Inr (flatten_pairs blocks)"
    by (rule coerce_all_encoder)
  have fl: "flatten_from 0 \<lparr>blocks_var = map int_pair blocks, number_list = []\<rparr> =
           (None, \<lparr>blocks_var = map int_pair blocks, number_list = flatten_pairs blocks\<rparr>)"
    using co by (rule flatten_from_0_Inr)
  have len: "length (flatten_pairs blocks) = 2 * length blocks" by (rule flatten_pairs_length)
  have two: "2 \<le> length blocks" using eb by (rule encode_blocks_length)
  have ev: "even (length (flatten_pairs blocks))" using len by simp
  have four: "4 \<le> length (flatten_pairs blocks)" using len two by simp
  have wf: "\<not> malformed_payload (flatten_pairs blocks)"
    using ev four by (simp add: malformed_payload_def)
  have add: "fst (add_data_image env (Img encoded_img) (map int_pair blocks)) =
           (if format_rejected encoded_img then Inl (ImageFormatError encoded_img)
            else lsb_hide env encoded_img (json_dumps (flatten_pairs blocks)))"
  proof (cases "format_rejected encoded_img")
    case True
    then show ?thesis by (simp add: add_data_image_def resolve_image_def)
  next
    case False
    then show ?thesis
      using add_data_image_eq[OF resolve_image_Img False, of env "map int_pair blocks"] co
      by simp
  qed
  have enc: "fst (encode env g img block_size) =
           (if format_rejected encoded_img then Inl (ImageFormatError encoded_img)
            else lsb_hide env encoded_img (json_dumps (flatten_pairs blocks)))"
    using eb add by (simp add: encode_def)
  show ?thesis by (intro conjI) (fact fl, fact len, fact ev, fact four, fact wf, fact add, fact enc)
qed

text \<open>An instance: a single block, whose payload has 6 integers.\<close>

theorem encoder_payload_well_formed_witness:
  "encode_blocks example_env (\<lambda>k. 0) (Path ''image.png'') (Some 32) =
     (Inr ([(4, 2), (32, 32), (0, 0)], \<lparr>format = None, size_image = (4, 2), pixels = []\<rparr>),
      \<lambda>k. 0) \<and>
   flatten_pairs [(4, 2), (32, 32), (0, 0)] = [4, 2, 32, 32, 0, 0] \<and>
   \<not> malformed_payload [4, 2, 32, 32, 0, 0] \<and>
   fst (encode example_env (\<lambda>k. 0) (Path ''image.png'') (Some 32)) =
     Inr \<lparr>format = None, size_image = (4, 2), pixels = ''[4,2,32,32,0,0]''\<rparr>"
proof -
  let ?enc = "\<lparr>format = None, size_image = (4, 2), pixels = []\<rparr> :: string image"
  have eb: "encode_blocks example_env (\<lambda>k. 0) (Path ''image.png'') (Some 32) =
              (Inr ([(4, 2), (32, 32), (0, 0)], ?enc), \<lambda>k. 0)"
    by (simp add: eval_model)
  have fp: "flatten_pairs [(4, 2), (32, 32), (0, 0)] = [4, 2, 32, 32, 0, 0]"
    by (simp add: flatten_pairs_def)
  note t = encoder_payload_well_formed[OF eb]
  have wf: "\<not> malformed_payload [4, 2, 32, 32, 0, 0]"
    using t[THEN conjunct2, THEN conjunct2, THEN conjunct2, THEN conjunct2, THEN conjunct1]
    unfolding fp .
  have e: "fst (encode example_env (\<lambda>k. 0) (Path ''image.png'') (Some 32)) =
     Inr \<lparr>format = None, size_image = (4, 2), pixels = ''[4,2,32,32,0,0]''\<rparr>"
    using t[THEN conjunct2, THEN conjunct2, THEN conjunct2, THEN conjunct2, THEN conjunct2,
            THEN conjunct2]
    unfolding fp by (simp add: format_rejected_def example_env_def eval_json)
  show ?thesis by (intro conjI) (fact eb, fact fp, fact wf, fact e)
qed


text \<open>
  C9. Given a path string, \<^verbatim>\<open>add_data_image\<close>, \<^verbatim>\<open>encode_blocks\<close> and \<^verbatim>\<open>encode\<close> open the file and
  then do exactly what they do on the opened image, the format gate included; when the file
  cannot be opened they raise what \<^verbatim>\<open>PIL.Image.open\<close> raised and change nothing.
\<close>

theorem path_and_image_same_path:
  "(\<forall>im. image_open env p = Inr im \<longrightarrow>
      add_data_image env (Path p) blocks = add_data_image env (Img im) blocks \<and>
      encode_blocks env g (Path p) block_size = encode_blocks env g (Img im) block_size \<and>
      encode env g (Path p) block_size = encode env g (Img im) block_size) \<and>
   (\<forall>e. image_open env p = Inl e \<longrightarrow>
      add_data_image env (Path p) blocks = (Inl e, blocks) \<and>
      encode_blocks env g (Path p) block_size = (Inl e, g) \<and>
      encode env g (Path p) block_size = (Inl e, g))"
proof -
  have a: "add_data_image env (Path p) blocks = add_data_image env (Img im) blocks \<and>
      encode_blocks env g (Path p) block_size = encode_blocks env g (Img im) block_size \<and>
      encode env g (Path p) block_size = encode env g (Img im) block_size"
    if "image_open env p = Inr im" for im
    using that by (simp add: add_data_image_def encode_blocks_def encode_def resolve_image_def)
  have b: "add_data_image env (Path p) blocks = (Inl e, blocks) \<and>
      encode_blocks env g (Path p) block_size = (Inl e, g) \<and>
      encode env g (Path p) block_size = (Inl e, g)"
    if "image_open env p = Inl e" for e
    using that by (simp add: add_data_image_def encode_blocks_def encode_def resolve_image_def)
  show ?thesis using a b by blast
qed

text \<open>An instance: the PNG file of the example environment, and a file that is missing.\<close>

theorem path_and_image_same_path_witness:
  "image_open example_env ''image.png'' =
     Inr \<lparr>format = Some ''PNG'', size_image = (4, 2), pixels = []\<rparr> \<and>
   encode example_env (\<lambda>k. 0) (Path ''image.png'') (Some 2) =
     encode example_env (\<lambda>k. 0)
       (Img \<lparr>format = Some ''PNG'', size_image = (4, 2), pixels = []\<rparr>) (Some 2) \<and>
   add_data_image example_env (Path ''image.png'') [(IntV 1, IntV 2)] =
     add_data_image example_env
       (Img \<lparr>format = Some ''PNG'', size_image = (4, 2), pixels = []\<rparr>) [(IntV 1, IntV 2)] \<and>
   image_open example_env ''missing.png'' = Inl (Builtin (OtherError ''FileNotFoundError'')) \<and>
   encode example_env (\<lambda>k. 0) (Path ''missing.png'') (Some 2) =
     (Inl (Builtin (OtherError ''FileNotFoundError'')), \<lambda>k. 0)"
proof -
  let ?im = "\<lparr>format = Some ''PNG'', size_image = (4, 2), pixels = []\<rparr> :: string image"
  have o: "image_open example_env ''image.png'' = Inr ?im" by (simp add: example_env_def)
  have m: "image_open example_env ''missing.png'' = Inl (Builtin (OtherError ''FileNotFoundError''))"
    by (simp add: example_env_def)
  note t = path_and_image_same_path[of example_env "''image.png''" "[(IntV 1, IntV 2)]"
             "\<lambda>k. 0" "Some 2", THEN conjunct1, rule_format, OF o]
  note u = path_and_image_same_path[of example_env "''missing.png''" "[(IntV 1, IntV 2)]"
             "\<lambda>k. 0" "Some 2", THEN conjunct2, rule_format, OF m]
  show ?thesis
    by (intro conjI)
       (fact o, fact t[THEN conjunct2, THEN conjunct2], fact t[THEN conjunct1], fact m,
        fact u[THEN conjunct2, THEN conjunct2])
qed


text \<open>
  C10. \<^verbatim>\<open>add_data_image\<close> leaves its \<^verbatim>\<open>blocks\<close> argument as it was, whether it returns or raises:
  no step of its loop changes the list it iterates.
\<close>

theorem add_data_image_keeps_blocks:
  "snd (add_data_image env img blocks) = blocks \<and>
   blocks_var (snd (flatten_from i s)) = blocks_var s"
proof -
  have loop: "blocks_var (snd (flatten_from i s)) = blocks_var s" for i s
    by (rule flatten_from_blocks)
  have "snd (add_data_image env img blocks) = blocks"
  proof (cases "resolve_image env img")
    case (Inl e)
    then show ?thesis by (simp add: add_data_image_def)
  next
    case (Inr im)
    let ?r = "flatten_from 0 \<lparr>blocks_var = blocks, number_list = []\<rparr>"
    have "blocks_var (snd ?r) = blocks" using loop[of 0] by simp
    then show ?thesis using Inr
      by (cases ?r) (auto simp: add_data_image_def Let_def split: option.splits)
  qed
  then show ?thesis using loop by simp
qed

text \<open>An instance: a list with a NaN, on which the call raises \<^verbatim>\<open>ValueError\<close>.\<close>

theorem add_data_image_keeps_blocks_witness:
  "snd (add_data_image example_env (Path ''image.png'')
          [(FloatV (7 / 2), IntV 1), (IntV 3, NanV)]) =
     [(FloatV (7 / 2), IntV 1), (IntV 3, NanV)] \<and>
   fst (add_data_image example_env (Path ''image.png'')
          [(FloatV (7 / 2), IntV 1), (IntV 3, NanV)]) = Inl (Builtin ValueError)"
proof -
  let ?blocks = "[(FloatV (7 / 2), IntV 1), (IntV 3, NanV)]"
  let ?im = "\<lparr>format = Some ''PNG'', size_image = (4, 2), pixels = []\<rparr> :: string image"
  have k: "snd (add_data_image example_env (Path ''image.png'') ?blocks) = ?blocks"
    by (rule add_data_image_keeps_blocks[THEN conjunct1])
  have im: "resolve_image example_env (Path ''image.png'') = Inr ?im"
    by (simp add: eval_model)
  have ok: "\<not> format_rejected ?im" by (simp add: format_rejected_def)
  have f: "fst (add_data_image example_env (Path ''image.png'') ?blocks) = Inl (Builtin ValueError)"
    using add_data_image_eq[OF im ok, of ?blocks] by simp
  show ?thesis by (intro conjI) (fact k, fact f)
qed

end
